theory Spec2Isabelle
  imports Main "HOL-Library.Word"
begin

unbundle bit_operations_syntax

section \<open>Bytes, machine words and host byte order\<close>

type_synonym u8 = "8 word"
type_synonym u16 = "16 word"
type_synonym u32 = "32 word"

text \<open>
  The C code loads multi-byte fields straight from memory (\<open>iph->ip_src.s_addr\<close>,
  \<open>tcph->th_sport\<close>, \<open>recv(fd, &packet_length, 4, 0)\<close>), so the value of such a
  field depends on the byte order of the host. The byte order is a parameter of the model.
\<close>

datatype endian = LittleEndian | BigEndian

text \<open>The value of a byte sequence read most significant byte first.\<close>

definition be_word :: "u8 list \<Rightarrow> 'a::len word" where
  "be_word bs = foldl (\<lambda>acc b. push_bit 8 acc OR ucast b) 0 bs"

text \<open>The \<open>n\<close> low bytes of a word, most significant byte first.\<close>

definition be_bytes :: "nat \<Rightarrow> 'a::len word \<Rightarrow> u8 list" where
  "be_bytes n w = map (\<lambda>i. ucast (drop_bit (8 * i) w)) (rev [0..<n])"

text \<open>A host-order load of a field from its bytes in memory, and the bytes a host-order
  store of a field leaves in memory.\<close>

definition host_load :: "endian \<Rightarrow> u8 list \<Rightarrow> 'a::len word" where
  "host_load e bs = (case e of BigEndian \<Rightarrow> be_word bs | LittleEndian \<Rightarrow> be_word (rev bs))"

definition host_store :: "endian \<Rightarrow> nat \<Rightarrow> 'a::len word \<Rightarrow> u8 list" where
  "host_store e n w = (case e of BigEndian \<Rightarrow> be_bytes n w | LittleEndian \<Rightarrow> rev (be_bytes n w))"

text \<open>\<open>htons\<close>, \<open>htonl\<close> and \<open>ntohl\<close> of the C library: the identity on a big-endian
  host, a reversal of the bytes of the value on a little-endian one.\<close>

definition bswap16 :: "u16 \<Rightarrow> u16" where
  "bswap16 w = be_word (rev (be_bytes 2 w))"

definition bswap32 :: "u32 \<Rightarrow> u32" where
  "bswap32 w = be_word (rev (be_bytes 4 w))"

definition htons :: "endian \<Rightarrow> u16 \<Rightarrow> u16" where
  "htons e w = (case e of BigEndian \<Rightarrow> w | LittleEndian \<Rightarrow> bswap16 w)"

definition htonl :: "endian \<Rightarrow> u32 \<Rightarrow> u32" where
  "htonl e w = (case e of BigEndian \<Rightarrow> w | LittleEndian \<Rightarrow> bswap32 w)"

definition ntohl :: "endian \<Rightarrow> u32 \<Rightarrow> u32" where
  "ntohl e w = (case e of BigEndian \<Rightarrow> w | LittleEndian \<Rightarrow> bswap32 w)"

section \<open>The packet classifier: \<open>pktparse.h\<close>, \<open>pktparse.c\<close>\<close>

text \<open>\<open>struct pkt_info\<close> of \<open>pktparse.h\<close>.\<close>

record pkt_info =
  is_ipv4 :: int
  is_tcp :: int
  ip_src :: u32
  ip_dst :: u32
  tcp_src :: u16
  tcp_dst :: u16
  ip_header_len :: int
  tcp_header_len :: int

text \<open>\<open>memset(info, 0, sizeof(*info))\<close>.\<close>

definition zero_info :: pkt_info where
  "zero_info = \<lparr>is_ipv4 = 0, is_tcp = 0, ip_src = 0, ip_dst = 0, tcp_src = 0, tcp_dst = 0,
     ip_header_len = 0, tcp_header_len = 0\<rparr>"

text \<open>
  \<open>pkt_parse\<close> receives a pointer \<open>buf\<close> and a length \<open>len\<close>; the test suite calls it
  with a \<open>len\<close> smaller than the array behind \<open>buf\<close>, so the two are separate
  arguments here as well. Every read of a byte of \<open>buf\<close> goes through \<open>rd\<close>, which
  fails when the offset is not below \<open>len\<close>, and also when it is below \<open>len\<close> but
  outside the array the caller passed.
\<close>

datatype rd_error = BeyondLen nat | BeyondBuffer nat

definition rd :: "u8 list \<Rightarrow> nat \<Rightarrow> nat \<Rightarrow> rd_error + u8" where
  "rd buf len i =
     (if len \<le> i then Inl (BeyondLen i)
      else if length buf \<le> i then Inl (BeyondBuffer i)
      else Inr (buf ! i))"

definition rd_bind :: "rd_error + 'a \<Rightarrow> ('a \<Rightarrow> rd_error + 'b) \<Rightarrow> rd_error + 'b" where
  "rd_bind m f = (case m of Inl err \<Rightarrow> Inl err | Inr x \<Rightarrow> f x)"

text \<open>A field of \<open>n\<close> bytes at offset \<open>off\<close>, read byte by byte in memory order.\<close>

fun rd_bytes :: "u8 list \<Rightarrow> nat \<Rightarrow> nat \<Rightarrow> nat \<Rightarrow> rd_error + u8 list" where
  "rd_bytes buf len off 0 = Inr []"
| "rd_bytes buf len off (Suc n) =
     rd_bind (rd buf len off) (\<lambda>b.
     rd_bind (rd_bytes buf len (Suc off) n) (\<lambda>bs. Inr (b # bs)))"

text \<open>
  The layouts of \<open>struct ip\<close> and \<open>struct tcphdr\<close> come from the system headers
  \<open>netinet/ip.h\<close> and \<open>netinet/tcp.h\<close>. Both structures are 20 bytes long. In
  \<open>struct ip\<close> the first byte holds \<open>ip_v\<close> in its high and \<open>ip_hl\<close> in its low four
  bits (the headers swap the order of the two bit-fields with the byte order of the host, so
  that this holds on every host), \<open>ip_p\<close> is byte 9, \<open>ip_src\<close> bytes 12 to 15 and
  \<open>ip_dst\<close> bytes 16 to 19. In \<open>struct tcphdr\<close>, \<open>th_sport\<close> is bytes 0 and 1,
  \<open>th_dport\<close> bytes 2 and 3, and byte 12 holds \<open>th_off\<close> in its high four bits.
\<close>

definition sizeof_ip :: nat where
  "sizeof_ip = 20"

definition sizeof_tcphdr :: nat where
  "sizeof_tcphdr = 20"

definition IPPROTO_TCP :: u8 where
  "IPPROTO_TCP = 6"

definition ip_v :: "u8 \<Rightarrow> u8" where
  "ip_v b = drop_bit 4 b"

definition ip_hl :: "u8 \<Rightarrow> u8" where
  "ip_hl b = b AND 0x0F"

definition th_off :: "u8 \<Rightarrow> u8" where
  "th_off b = drop_bit 4 b"

text \<open>
  \<open>pkt_parse\<close> of \<open>pktparse.c\<close>. The result is the returned \<open>int\<close> together with the
  contents of \<open>*info\<close>. The comparisons \<open>len < ihl\<close> and
  \<open>len < ihl + sizeof(struct tcphdr)\<close> are made in \<open>size_t\<close>; \<open>ihl\<close> lies between 0 and
  60, so the conversion does not change it.
\<close>

definition pkt_parse :: "endian \<Rightarrow> u8 list \<Rightarrow> nat \<Rightarrow> rd_error + (int \<times> pkt_info)" where
  "pkt_parse e buf len =
     (let info = zero_info in
      if len < sizeof_ip then Inr (0, info)
      else
        rd_bind (rd buf len 0) (\<lambda>vb.
        if ip_v vb \<noteq> 4 then Inr (0, info)
        else
          rd_bind (rd buf len 0) (\<lambda>hb.
          let ihl = uint (ip_hl hb) * 4 in
          if int len < ihl then Inr (0, info)
          else
            rd_bind (rd_bytes buf len 12 4) (\<lambda>src.
            rd_bind (rd_bytes buf len 16 4) (\<lambda>dst.
            let info = info\<lparr>is_ipv4 := 1, ip_header_len := ihl,
                             ip_src := host_load e src, ip_dst := host_load e dst\<rparr> in
            rd_bind (rd buf len 9) (\<lambda>p.
            if p \<noteq> IPPROTO_TCP then Inr (1, info)
            else if len < nat ihl + sizeof_tcphdr then Inr (1, info)
            else
              rd_bind (rd buf len (nat ihl + 12)) (\<lambda>ob.
              rd_bind (rd_bytes buf len (nat ihl) 2) (\<lambda>sport.
              rd_bind (rd_bytes buf len (nat ihl + 2) 2) (\<lambda>dport.
              Inr (1, info\<lparr>is_tcp := 1, tcp_header_len := uint (th_off ob) * 4,
                            tcp_src := host_load e sport, tcp_dst := host_load e dport\<rparr>))))))))))"

text \<open>The packets of \<open>pktparse_test.c\<close>.\<close>

definition test_packet :: "u8 list" where
  "test_packet =
     [0x45, 0x00, 0x00, 0x3c, 0x00, 0x01, 0x00, 0x00, 0x40, 0x06, 0x00, 0x00,
      0xc0, 0xa8, 0x01, 0x01,
      0xc0, 0xa8, 0x01, 0x02,
      0x04, 0xd2, 0x00, 0x19,
      0x00, 0x00, 0x00, 0x00, 0x00, 0x00, 0x00, 0x00,
      0x50, 0x02, 0x20, 0x00, 0x00, 0x00, 0x00, 0x00]"

definition udp_packet :: "u8 list" where
  "udp_packet =
     [0x45, 0x00, 0x00, 0x3c, 0x00, 0x01, 0x00, 0x00, 0x40, 0x11, 0x00, 0x00,
      0xc0, 0xa8, 0x01, 0x01, 0xc0, 0xa8, 0x01, 0x02,
      0x00, 0x00, 0x00, 0x00, 0x00, 0x00, 0x00, 0x00]"

text \<open>A 20-byte packet whose IP header-length field is 0 and whose protocol is TCP.\<close>

definition tiny_packet :: "u8 list" where
  "tiny_packet = [0x40, 0, 0, 0, 0, 0, 0, 0, 0, 0x06, 0, 0, 0, 0, 0, 0, 0, 0, 0, 0]"

section \<open>The tunnel server: \<open>tunnel_server.c\<close>\<close>

subsection \<open>The world of a client session\<close>

text \<open>
  \<open>handle_client\<close> talks to the operating system only: the client socket, the TUN
  device, \<open>select\<close>, \<open>errno\<close> and the flag \<open>running\<close> that the signal handler clears.
  What these calls return is not decided by the program, so the model takes it from scripts
  that the world carries, one event for each call, and records what the program hands to
  the system.

  \<open>EWOULDBLOCK\<close> and \<open>EAGAIN\<close> are the same number on Linux; \<open>EOTHER\<close> stands for
  every error number that is neither \<open>EAGAIN\<close> nor \<open>EINTR\<close>.
\<close>

datatype errno = EAGAIN | EINTR | EOTHER

datatype handle = Unopened | Opened | Closed

datatype mem = Allocated | Freed

text \<open>
  What one \<open>recv\<close> on the client socket finds: bytes in the receive buffer of the socket
  (a call takes at most these, and leaves the rest of them at the head), a failure with an
  error number, or the end of the stream after the peer closed. An empty script is a socket
  with nothing to read yet.
\<close>

datatype rx_event = RxData "u8 list" | RxFail errno | RxEof

text \<open>What one \<open>send\<close> on the client socket does: it accepts at most so many bytes, or
  fails. With an empty script it accepts everything.\<close>

datatype tx_event = TxAccept nat | TxFail errno

datatype tun_rd_event = TunPacket "u8 list" | TunRdFail errno

datatype tun_wr_event = TunWrOk | TunWrFail errno

record world =
  errno :: errno
  rx :: "rx_event list"
  recv_log :: "nat list"
  tx :: "tx_event list"
  sent :: "u8 list"
  tun_rd :: "tun_rd_event list"
  tun_wr :: "tun_wr_event list"
  tun_written :: "u8 list list"
  length_slot :: u32
  open_ok :: bool
  ioctl_ok :: bool
  system_status :: "int list"
  tun_fd :: handle
  client_fd :: handle
  client :: mem
  misuse :: bool

text \<open>
  \<open>recv(client_fd, buf, n, 0)\<close> on the non-blocking socket: the returned count and the
  bytes stored at \<open>buf\<close>. \<open>recv_log\<close> collects the count requested by every call.
\<close>

definition recv :: "nat \<Rightarrow> world \<Rightarrow> (int \<times> u8 list) \<times> world" where
  "recv n w0 =
     (let w = w0\<lparr>recv_log := recv_log w0 @ [n]\<rparr> in
      case rx w of
        [] \<Rightarrow> ((- 1, []), w\<lparr>errno := EAGAIN\<rparr>)
      | RxEof # evs \<Rightarrow> ((0, []), w)
      | RxFail err # evs \<Rightarrow> ((- 1, []), w\<lparr>errno := err, rx := evs\<rparr>)
      | RxData bs # evs \<Rightarrow>
          if bs = [] then ((- 1, []), w\<lparr>errno := EAGAIN, rx := evs\<rparr>)
          else ((int (length (take n bs)), take n bs),
                w\<lparr>rx := (if drop n bs = [] then evs else RxData (drop n bs) # evs)\<rparr>))"

text \<open>\<open>send(client_fd, buf, n, 0)\<close>: the returned count; \<open>sent\<close> collects the bytes the
  socket accepted.\<close>

definition send :: "u8 list \<Rightarrow> world \<Rightarrow> int \<times> world" where
  "send bs w =
     (case tx w of
        [] \<Rightarrow> (int (length bs), w\<lparr>sent := sent w @ bs\<rparr>)
      | TxAccept k # evs \<Rightarrow> (int (length (take k bs)), w\<lparr>sent := sent w @ take k bs, tx := evs\<rparr>)
      | TxFail err # evs \<Rightarrow> (- 1, w\<lparr>errno := err, tx := evs\<rparr>))"

text \<open>\<open>read(tun_fd, buf, n)\<close>: the device hands over one packet for each call, cut to
  \<open>n\<close> bytes; an empty script is a device with no packet waiting.\<close>

definition tun_read :: "nat \<Rightarrow> world \<Rightarrow> (int \<times> u8 list) \<times> world" where
  "tun_read n w =
     (case tun_rd w of
        [] \<Rightarrow> ((- 1, []), w\<lparr>errno := EAGAIN\<rparr>)
      | TunPacket p # evs \<Rightarrow> ((int (length (take n p)), take n p), w\<lparr>tun_rd := evs\<rparr>)
      | TunRdFail err # evs \<Rightarrow> ((- 1, []), w\<lparr>errno := err, tun_rd := evs\<rparr>))"

text \<open>\<open>write(tun_fd, buf, n)\<close>: the device takes the bytes as one packet, or the call
  fails; with an empty script it succeeds.\<close>

definition tun_write :: "u8 list \<Rightarrow> world \<Rightarrow> int \<times> world" where
  "tun_write bs w =
     (case tun_wr w of
        [] \<Rightarrow> (int (length bs), w\<lparr>tun_written := tun_written w @ [bs]\<rparr>)
      | TunWrOk # evs \<Rightarrow> (int (length bs), w\<lparr>tun_written := tun_written w @ [bs], tun_wr := evs\<rparr>)
      | TunWrFail err # evs \<Rightarrow> (- 1, w\<lparr>errno := err, tun_wr := evs\<rparr>))"

text \<open>\<open>close\<close> and \<open>free\<close>. Closing a descriptor that is not open, or freeing memory
  that is not allocated, is recorded in \<open>misuse\<close>.\<close>

definition close_tun :: "world \<Rightarrow> world" where
  "close_tun w = (if tun_fd w = Opened then w\<lparr>tun_fd := Closed\<rparr> else w\<lparr>misuse := True\<rparr>)"

definition close_client :: "world \<Rightarrow> world" where
  "close_client w = (if client_fd w = Opened then w\<lparr>client_fd := Closed\<rparr> else w\<lparr>misuse := True\<rparr>)"

definition free_client :: "world \<Rightarrow> world" where
  "free_client w = (if client w = Allocated then w\<lparr>client := Freed\<rparr> else w\<lparr>misuse := True\<rparr>)"

text \<open>\<open>system(cmd)\<close>: the exit status comes from the script; with an empty script it
  is 0.\<close>

definition system :: "world \<Rightarrow> int \<times> world" where
  "system w = (case system_status w of [] \<Rightarrow> (0, w) | st # sts \<Rightarrow> (st, w\<lparr>system_status := sts\<rparr>))"

subsection \<open>The TUN device\<close>

text \<open>
  \<open>create_tun_device\<close>. The result is whether the returned descriptor is non-negative;
  the number of the descriptor plays no part in what follows. When \<open>ioctl\<close> fails the
  function closes the descriptor it opened.
\<close>

definition create_tun_device :: "world \<Rightarrow> bool \<times> world" where
  "create_tun_device w =
     (if \<not> open_ok w then (False, w)
      else
        let w1 = w\<lparr>tun_fd := Opened\<rparr> in
        if \<not> ioctl_ok w1 then (False, close_tun w1)
        else (True, w1))"

text \<open>\<open>configure_tun_device\<close>: two shell commands, \<open>- 1\<close> as soon as one of them
  exits with a status other than 0.\<close>

definition configure_tun_device :: "world \<Rightarrow> int \<times> world" where
  "configure_tun_device w =
     (case system w of (st1, w1) \<Rightarrow>
        if st1 \<noteq> 0 then (- 1, w1)
        else
          case system w1 of (st2, w2) \<Rightarrow>
            if st2 \<noteq> 0 then (- 1, w2)
            else (0, w2))"

subsection \<open>The forwarding loop of \<open>handle_client\<close>\<close>

text \<open>How a part of the loop body ends: with \<open>break\<close>, with \<open>continue\<close>, or by
  running on to the statement after it.\<close>

datatype flow = Break | Continue | Fall

text \<open>
  The block under \<open>FD_ISSET(client_fd, &read_fds)\<close>: one frame from the client to the
  TUN device. \<open>packet_length\<close> is declared without a value, and \<open>recv\<close> stores the
  bytes it returns at the start of the variable, so after a call that returned fewer than 4
  bytes the other bytes of the variable are what its place on the stack held before.
  \<open>length_slot\<close> is the content of that place: whatever the world supplies at the first
  pass through the loop, and from then on what the last assignment to \<open>packet_length\<close>
  left there, the result of \<open>ntohl\<close>.
\<close>

definition client_to_tun :: "endian \<Rightarrow> world \<Rightarrow> flow \<times> world" where
  "client_to_tun e w =
     (case recv 4 w of ((bytes_read, got), w1) \<Rightarrow>
        if bytes_read \<le> 0 then (Break, w1)
        else
          let packet_length =
                ntohl e (host_load e (got @ drop (length got) (host_store e 4 (length_slot w1))));
              w1 = w1\<lparr>length_slot := packet_length\<rparr> in
          if 65535 < packet_length \<or> packet_length = 0 then (Continue, w1)
          else
            case recv (unat packet_length) w1 of ((bytes_read, packet_buffer), w2) \<Rightarrow>
              if bytes_read \<le> 0 then (Continue, w2)
              else
                case tun_write packet_buffer w2 of (bytes_written, w3) \<Rightarrow> (Fall, w3))"

text \<open>
  The block under \<open>FD_ISSET(tun_fd, &read_fds)\<close>: one packet from the TUN device to the
  client, as a 4-byte length in network byte order and then the packet.
\<close>

definition tun_to_client :: "endian \<Rightarrow> world \<Rightarrow> flow \<times> world" where
  "tun_to_client e w =
     (case tun_read 65535 w of ((bytes_read, packet_buffer), w1) \<Rightarrow>
        if 0 < bytes_read then
          let packet_length = htonl e (word_of_int bytes_read) in
          case send (host_store e 4 packet_length) w1 of (bytes_sent, w2) \<Rightarrow>
            if bytes_sent \<noteq> 4 then
              (if errno w2 \<noteq> EAGAIN then (Break, w2) else (Fall, w2))
            else
              case send packet_buffer w2 of (bytes_sent, w3) \<Rightarrow>
                if bytes_sent < 0 then
                  (if errno w3 \<noteq> EAGAIN then (Break, w3) else (Fall, w3))
                else (Fall, w3)
        else if bytes_read < 0 \<and> errno w1 \<noteq> EAGAIN then (Break, w1)
        else (Fall, w1))"

text \<open>
  What \<open>select\<close> returns: a failure with an error number, 0 after the timeout of one
  second, or a positive count with the two descriptors in or out of \<open>read_fds\<close>.
\<close>

datatype select_result = SelFail errno | SelTimeout | SelReady bool bool

text \<open>The two \<open>FD_ISSET\<close> blocks in their order; a \<open>break\<close> or \<open>continue\<close> in the
  first skips the second.\<close>

definition forward_ready :: "endian \<Rightarrow> bool \<Rightarrow> bool \<Rightarrow> world \<Rightarrow> flow \<times> world" where
  "forward_ready e client_set tun_set w =
     (case (if client_set then client_to_tun e w else (Fall, w)) of (f, w1) \<Rightarrow>
        if f \<noteq> Fall then (f, w1)
        else if tun_set then tun_to_client e w1
        else (Fall, w1))"

text \<open>
  One pass through the body of \<open>while (running)\<close>. When \<open>select\<close> fails with
  \<open>EINTR\<close> the body neither breaks nor continues; \<open>select\<close> leaves the descriptor sets
  as they are when it fails, and \<open>FD_SET\<close> put both descriptors in.
\<close>

definition loop_body :: "endian \<Rightarrow> select_result \<Rightarrow> world \<Rightarrow> flow \<times> world" where
  "loop_body e sel w =
     (case sel of
        SelFail err \<Rightarrow>
          let w1 = w\<lparr>errno := err\<rparr> in
          if err \<noteq> EINTR then (Break, w1) else forward_ready e True True w1
      | SelTimeout \<Rightarrow> (Continue, w)
      | SelReady client_set tun_set \<Rightarrow> forward_ready e client_set tun_set w)"

text \<open>
  The loop. Each test of \<open>running\<close> and the \<open>select\<close> after it take one event from
  a script: \<open>Stopped\<close> when the test finds the flag cleared, \<open>Running sel\<close> when it finds
  the flag set and \<open>select\<close> returns \<open>sel\<close>. The loop can go on for as long as the
  flag stays set; a script that ends before the loop does gives \<open>None\<close>.
\<close>

datatype loop_event = Stopped | Running select_result

fun forwarding_loop :: "endian \<Rightarrow> loop_event list \<Rightarrow> world \<Rightarrow> world option" where
  "forwarding_loop e [] w = None"
| "forwarding_loop e (Stopped # evs) w = Some w"
| "forwarding_loop e (Running sel # evs) w =
     (case loop_body e sel w of
        (Break, w1) \<Rightarrow> Some w1
      | (Continue, w1) \<Rightarrow> forwarding_loop e evs w1
      | (Fall, w1) \<Rightarrow> forwarding_loop e evs w1)"

subsection \<open>\<open>handle_client\<close>\<close>

text \<open>
  The thread of one client, from the creation of the TUN device to \<open>return NULL\<close>. The
  two \<open>fcntl\<close> calls make both descriptors non-blocking, which is what the scripts of
  the world describe. The result is the world at the return, \<open>None\<close> when the script of
  the loop ends before the loop does.
\<close>

definition handle_client :: "endian \<Rightarrow> loop_event list \<Rightarrow> world \<Rightarrow> world option" where
  "handle_client e evs w =
     (case create_tun_device w of (created, w1) \<Rightarrow>
        if \<not> created then Some (free_client (close_client w1))
        else
          case configure_tun_device w1 of (st, w2) \<Rightarrow>
            if st < 0 then Some (free_client (close_client (close_tun w2)))
            else
              case forwarding_loop e evs w2 of
                None \<Rightarrow> None
              | Some w3 \<Rightarrow> Some (free_client (close_client (close_tun w3))))"

text \<open>A session as \<open>main\<close> starts one: the socket accepted, the client structure
  allocated, no TUN device yet.\<close>

definition session_start :: "world \<Rightarrow> bool" where
  "session_start w \<longleftrightarrow>
     client_fd w = Opened \<and> client w = Allocated \<and> tun_fd w = Unopened \<and> \<not> misuse w"

text \<open>The frame that the loop puts on the wire for a packet: the length of the packet as
  4 bytes in network byte order, then the packet.\<close>

definition frame :: "u8 list \<Rightarrow> u8 list" where
  "frame p = be_bytes 4 (word_of_nat (length p) :: u32) @ p"

subsection \<open>Resources, and worlds for the examples\<close>

text \<open>The descriptors of a session and the client structure, and whether any of them was
  closed or freed when it should not have been.\<close>

definition resources :: "world \<Rightarrow> handle \<times> handle \<times> mem \<times> bool" where
  "resources w = (tun_fd w, client_fd w, client w, misuse w)"

text \<open>A session at its start whose scripts are all empty: nothing to read on either side,
  every other call succeeds.\<close>

definition quiet_world :: world where
  "quiet_world =
     \<lparr>errno = EOTHER, rx = [], recv_log = [], tx = [], sent = [], tun_rd = [], tun_wr = [],
      tun_written = [], length_slot = 0, open_ok = True, ioctl_ok = True, system_status = [],
      tun_fd = Unopened, client_fd = Opened, client = Allocated, misuse = False\<rparr>"







text \<open>A sender with the packet \<open>aa bb cc\<close> waiting on its TUN device, whose socket
  accepts the 4 bytes of the first \<open>send\<close> and 1 byte of the second; and a receiver whose
  socket holds what that sender puts on the wire.\<close>

definition short_send_world :: world where
  "short_send_world =
     quiet_world\<lparr>tx := [TxAccept 4, TxAccept 1], tun_rd := [TunPacket [0xAA, 0xBB, 0xCC]]\<rparr>"

definition short_wire_world :: world where
  "short_wire_world =
     quiet_world\<lparr>rx := [RxData (sent (snd (tun_to_client LittleEndian short_send_world)))]\<rparr>"

text \<open>A sender with the same packet whose socket accepts everything; and a receiver whose
  socket holds the first five bytes of what that sender puts on the wire when the first
  \<open>recv\<close> is made, and the other bytes only later.\<close>

definition full_send_world :: world where
  "full_send_world = quiet_world\<lparr>tun_rd := [TunPacket [0xAA, 0xBB, 0xCC]]\<rparr>"

definition split_wire_world :: world where
  "split_wire_world =
     quiet_world\<lparr>rx := [RxData (take 5 (sent (snd (tun_to_client LittleEndian full_send_world)))),
                         RxData (drop 5 (sent (snd (tun_to_client LittleEndian full_send_world))))]\<rparr>"

text \<open>A sender with the packet \<open>01 02 03\<close> waiting on its TUN device, and a receiver whose
  socket holds what that sender puts on the wire.\<close>

definition sender_world :: world where
  "sender_world = quiet_world\<lparr>tun_rd := [TunPacket [1, 2, 3]]\<rparr>"

definition receiver_world :: world where
  "receiver_world =
     quiet_world\<lparr>rx := [RxData (sent (snd (tun_to_client LittleEndian sender_world)))]\<rparr>"

section \<open>Properties of the packet classifier\<close>

subsection \<open>Bounded reads\<close>


lemma rd_ok: "i < len \<Longrightarrow> i < length buf \<Longrightarrow> rd buf len i = Inr (buf ! i)"
  by (simp add: rd_def)

lemma rd_BeyondLen: "rd buf len i = Inl (BeyondLen j) \<Longrightarrow> len \<le> i"
  by (simp add: rd_def split: if_splits)

lemma rd_bytes_ok:
  "off + n \<le> len \<Longrightarrow> off + n \<le> length buf \<Longrightarrow>
   rd_bytes buf len off n = Inr (take n (drop off buf))"
proof (induction n arbitrary: off)
  case 0
  show ?case by simp
next
  case (Suc n)
  from Suc.prems have "rd_bytes buf len (Suc off) n = Inr (take n (drop (Suc off) buf))"
    by (intro Suc.IH) simp_all
  moreover from Suc.prems have "rd buf len off = Inr (buf ! off)"
    by (intro rd_ok) simp_all
  moreover from Suc.prems have "take (Suc n) (drop off buf) = buf ! off # take n (drop (Suc off) buf)"
    by (simp add: Cons_nth_drop_Suc [symmetric])
  ultimately show ?case by (simp add: rd_bind_def)
qed

lemma rd_bytes_BeyondLen:
  "rd_bytes buf len off n = Inl (BeyondLen j) \<Longrightarrow> len < off + n"
proof (induction n arbitrary: off)
  case 0
  then show ?case by simp
next
  case (Suc n)
  show ?case
  proof (cases "rd buf len off")
    case (Inl err)
    with Suc.prems have "rd buf len off = Inl (BeyondLen j)" by (simp add: rd_bind_def)
    then have "len \<le> off" by (rule rd_BeyondLen)
    then show ?thesis by simp
  next
    case (Inr b)
    with Suc.prems have "rd_bytes buf len (Suc off) n = Inl (BeyondLen j)"
      by (simp add: rd_bind_def split: sum.splits)
    then have "len < Suc off + n" by (rule Suc.IH)
    then show ?thesis by simp
  qed
qed




lemma rd_bind_Inr [simp]: "rd_bind (Inr x) f = f x"
  by (simp add: rd_bind_def)

lemma rd_bind_BeyondLenE:
  assumes "rd_bind m f = Inl (BeyondLen j)"
  obtains "m = Inl (BeyondLen j)" | x where "m = Inr x" and "f x = Inl (BeyondLen j)"
  using assms by (cases m) (auto simp: rd_bind_def)

lemma pkt_parse_short: "len < 20 \<Longrightarrow> pkt_parse e buf len = Inr (0, zero_info)"
  by (simp add: pkt_parse_def sizeof_ip_def)

lemma pkt_parse_in_bounds:
  assumes "20 \<le> len" and "len \<le> length buf"
  shows "pkt_parse e buf len =
    (if ip_v (buf ! 0) \<noteq> 4 \<or> int len < uint (ip_hl (buf ! 0)) * 4 then Inr (0, zero_info)
     else if buf ! 9 \<noteq> IPPROTO_TCP \<or> len < nat (uint (ip_hl (buf ! 0)) * 4) + 20
     then Inr (1, zero_info\<lparr>is_ipv4 := 1, ip_header_len := uint (ip_hl (buf ! 0)) * 4,
            ip_src := host_load e (take 4 (drop 12 buf)),
            ip_dst := host_load e (take 4 (drop 16 buf))\<rparr>)
     else Inr (1, zero_info\<lparr>is_ipv4 := 1, ip_header_len := uint (ip_hl (buf ! 0)) * 4,
            ip_src := host_load e (take 4 (drop 12 buf)),
            ip_dst := host_load e (take 4 (drop 16 buf)),
            is_tcp := 1,
            tcp_header_len := uint (th_off (buf ! (nat (uint (ip_hl (buf ! 0)) * 4) + 12))) * 4,
            tcp_src := host_load e (take 2 (drop (nat (uint (ip_hl (buf ! 0)) * 4)) buf)),
            tcp_dst := host_load e (take 2 (drop (nat (uint (ip_hl (buf ! 0)) * 4) + 2) buf))\<rparr>))"
proof -
  from assms have r0: "rd buf len 0 = Inr (buf ! 0)" and r9: "rd buf len 9 = Inr (buf ! 9)"
    by (auto simp: rd_def)
  from assms have rs: "rd_bytes buf len 12 4 = Inr (take 4 (drop 12 buf))"
    and rt: "rd_bytes buf len 16 4 = Inr (take 4 (drop 16 buf))"
    by (simp_all add: rd_bytes_ok)
  let ?k = "nat (uint (ip_hl (buf ! 0)) * 4)"
  have tcp: "rd buf len (?k + 12) = Inr (buf ! (?k + 12))"
       "rd_bytes buf len ?k 2 = Inr (take 2 (drop ?k buf))"
       "rd_bytes buf len (?k + 2) 2 = Inr (take 2 (drop (?k + 2) buf))"
    if "\<not> len < ?k + 20"
    using that assms by (auto simp: rd_def rd_bytes_ok)
  show ?thesis
    unfolding pkt_parse_def Let_def
    using assms(1) tcp
    by (simp add: r0 r9 rs rt sizeof_ip_def sizeof_tcphdr_def)
qed

text \<open>
  Claim C1. For every buffer and every length, \<open>pkt_parse\<close> never reads a byte at an
  offset that is not below \<open>len\<close>: the error \<open>BeyondLen\<close> of a read at such an
  offset is never the outcome. When the caller's array holds at least \<open>len\<close> bytes, no
  read fails at all and \<open>pkt_parse\<close> returns a result.
\<close>

theorem pkt_parse_reads_in_bounds:
  "(\<forall>j. pkt_parse e buf len \<noteq> Inl (BeyondLen j)) \<and>
   (len \<le> length buf \<longrightarrow> (\<exists>r info. pkt_parse e buf len = Inr (r, info)))"
proof (intro conjI allI impI)
  fix j
  show "pkt_parse e buf len \<noteq> Inl (BeyondLen j)"
  proof
    assume a: "pkt_parse e buf len = Inl (BeyondLen j)"
    from a show False
      unfolding pkt_parse_def Let_def sizeof_ip_def sizeof_tcphdr_def
      by (auto split: if_splits elim!: rd_bind_BeyondLenE dest!: rd_BeyondLen rd_bytes_BeyondLen)
  qed
next
  assume le: "len \<le> length buf"
  show "\<exists>r info. pkt_parse e buf len = Inr (r, info)"
  proof (cases "len < 20")
    case True
    then show ?thesis by (simp add: pkt_parse_short)
  next
    case False
    then have "20 \<le> len" by simp
    from pkt_parse_in_bounds [OF this le] show ?thesis
      by (simp split: if_splits)
  qed
qed



theorem pkt_parse_reads_in_bounds_witness:
  "40 \<le> length test_packet \<and> (\<exists>r info. pkt_parse LittleEndian test_packet 40 = Inr (r, info))"
  using pkt_parse_reads_in_bounds [of LittleEndian test_packet 40]
  by (simp add: test_packet_def)

subsection \<open>Classification outcomes\<close>

lemma rd_bind_InrE:
  assumes "rd_bind m f = Inr y"
  obtains x where "m = Inr x" and "f x = Inr y"
  using assms by (cases m) (auto simp: rd_bind_def)

text \<open>
  Claim C5. \<open>pkt_parse\<close> returns 0, with \<open>*info\<close> all zero, when \<open>len\<close> is below 20,
  whatever the buffer holds; and, for a buffer of at least \<open>len\<close> bytes, when the version
  field is not 4 or \<open>len\<close> is less than four times the header-length field.
\<close>

theorem pkt_parse_not_parsed:
  "(len < 20 \<longrightarrow> pkt_parse e buf len = Inr (0, zero_info)) \<and>
   (len \<le> length buf \<and>
      (ip_v (buf ! 0) \<noteq> 4 \<or> int len < uint (ip_hl (buf ! 0)) * 4) \<longrightarrow>
    pkt_parse e buf len = Inr (0, zero_info))"
proof (intro conjI impI)
  assume "len < 20"
  then show "pkt_parse e buf len = Inr (0, zero_info)" by (rule pkt_parse_short)
next
  assume a: "len \<le> length buf \<and> (ip_v (buf ! 0) \<noteq> 4 \<or> int len < uint (ip_hl (buf ! 0)) * 4)"
  show "pkt_parse e buf len = Inr (0, zero_info)"
  proof (cases "len < 20")
    case True
    then show ?thesis by (rule pkt_parse_short)
  next
    case False
    with a have "20 \<le> len" and "len \<le> length buf" by simp_all
    from pkt_parse_in_bounds [OF this] a show ?thesis by simp
  qed
qed

theorem pkt_parse_not_parsed_witness:
  "pkt_parse LittleEndian test_packet 10 = Inr (0, zero_info) \<and>
   ip_v ((0x65 # replicate 39 0) ! 0) \<noteq> 4 \<and>
   pkt_parse LittleEndian (0x65 # replicate 39 0) 40 = Inr (0, zero_info) \<and>
   int 40 < uint (ip_hl ((0x4F # replicate 39 0) ! 0)) * 4 \<and>
   pkt_parse LittleEndian (0x4F # replicate 39 0) 40 = Inr (0, zero_info)"
  using pkt_parse_not_parsed [of 10 LittleEndian test_packet]
    pkt_parse_not_parsed [of 40 LittleEndian "0x65 # replicate 39 0"]
    pkt_parse_not_parsed [of 40 LittleEndian "0x4F # replicate 39 0"]
  by (simp add: ip_v_def ip_hl_def)

text \<open>
  Claim C6. For a buffer that passes the IPv4 checks (\<open>len\<close> at least 20, version 4,
  \<open>len\<close> at least the declared IP header length), \<open>pkt_parse\<close> returns 1 with
  \<open>is_ipv4 = 1\<close> and \<open>is_tcp = 0\<close> when the protocol field is not TCP, and also when
  fewer than 20 bytes remain after the IP header.
\<close>

theorem pkt_parse_non_tcp:
  assumes "20 \<le> len" and "len \<le> length buf"
    and "ip_v (buf ! 0) = 4" and "uint (ip_hl (buf ! 0)) * 4 \<le> int len"
    and "buf ! 9 \<noteq> IPPROTO_TCP \<or> len - nat (uint (ip_hl (buf ! 0)) * 4) < 20"
  shows "\<exists>info. pkt_parse e buf len = Inr (1, info) \<and> is_ipv4 info = 1 \<and> is_tcp info = 0"
proof -
  from assms(4,5) have "buf ! 9 \<noteq> IPPROTO_TCP \<or> len < nat (uint (ip_hl (buf ! 0)) * 4) + 20"
    by auto
  with pkt_parse_in_bounds [OF assms(1,2), of e] assms(3,4) show ?thesis
    by (auto simp: zero_info_def)
qed

theorem pkt_parse_non_tcp_witness:
  "(\<exists>info. pkt_parse BigEndian udp_packet 28 = Inr (1, info) \<and> is_ipv4 info = 1 \<and> is_tcp info = 0) \<and>
   test_packet ! 9 = IPPROTO_TCP \<and>
   (\<exists>info. pkt_parse BigEndian test_packet 30 = Inr (1, info) \<and> is_ipv4 info = 1 \<and> is_tcp info = 0)"
  using pkt_parse_non_tcp [of 28 udp_packet BigEndian] pkt_parse_non_tcp [of 30 test_packet BigEndian]
  by (simp add: udp_packet_def test_packet_def ip_v_def ip_hl_def IPPROTO_TCP_def)

lemma port_bytes_LE:
  "host_load LittleEndian [0x04, 0xd2] = htons LittleEndian 1234"
  "host_load LittleEndian [0x00, 0x19] = htons LittleEndian 25"
  "host_store LittleEndian 2 (htons LittleEndian 1234) = [0x04, 0xd2]"
  "host_store LittleEndian 2 (htons LittleEndian 25) = [0x00, 0x19]"
  by code_simp+

lemma port_bytes_BE:
  "host_load BigEndian [0x04, 0xd2] = htons BigEndian 1234"
  "host_load BigEndian [0x00, 0x19] = htons BigEndian 25"
  "host_store BigEndian 2 (htons BigEndian 1234) = [0x04, 0xd2]"
  "host_store BigEndian 2 (htons BigEndian 25) = [0x00, 0x19]"
  by code_simp+

lemma port_bytes:
  "host_load e [0x04, 0xd2] = htons e 1234"
  "host_load e [0x00, 0x19] = htons e 25"
  "host_store e 2 (htons e 1234) = [0x04, 0xd2]"
  "host_store e 2 (htons e 25) = [0x00, 0x19]"
  by (cases e; simp only: port_bytes_LE port_bytes_BE)+

text \<open>
  Claim C7. For a 40-byte buffer made of a 20-byte IPv4 header (version 4, header-length
  field 5, protocol TCP) and a 20-byte TCP header (data-offset field 5, source port bytes
  \<open>04 d2\<close>, destination port bytes \<open>00 19\<close>), \<open>pkt_parse\<close> returns 1 with
  \<open>is_ipv4 = 1\<close>, \<open>is_tcp = 1\<close>, \<open>ip_header_len = 20\<close>, \<open>tcp_header_len = 20\<close>,
  \<open>tcp_src = htons(1234)\<close> and \<open>tcp_dst = htons(25)\<close>: the two port fields hold in
  memory the bytes of the wire, on a host of either byte order. The witness is the packet of
  \<open>test_valid_tcp_packet\<close>.
\<close>

theorem pkt_parse_tcp_example:
  assumes "length buf = 40"
    and "ip_v (buf ! 0) = 4" and "ip_hl (buf ! 0) = 5" and "buf ! 9 = IPPROTO_TCP"
    and "th_off (buf ! 32) = 5"
    and "take 2 (drop 20 buf) = [0x04, 0xd2]" and "take 2 (drop 22 buf) = [0x00, 0x19]"
  shows "\<exists>info. pkt_parse e buf 40 = Inr (1, info) \<and> is_ipv4 info = 1 \<and> is_tcp info = 1 \<and>
           ip_header_len info = 20 \<and> tcp_header_len info = 20 \<and>
           tcp_src info = htons e 1234 \<and> tcp_dst info = htons e 25 \<and>
           host_store e 2 (tcp_src info) = [0x04, 0xd2] \<and>
           host_store e 2 (tcp_dst info) = [0x00, 0x19]"
proof -
  have b: "20 \<le> (40::nat)" "40 \<le> length buf"
    by (simp_all add: assms(1))
  from pkt_parse_in_bounds [OF b, of e] assms show ?thesis
    by (simp add: port_bytes)
qed

theorem pkt_parse_tcp_example_witness:
  "length test_packet = 40 \<and> ip_v (test_packet ! 0) = 4 \<and> ip_hl (test_packet ! 0) = 5 \<and>
   test_packet ! 9 = IPPROTO_TCP \<and> th_off (test_packet ! 32) = 5 \<and>
   take 4 (drop 20 test_packet) = [0x04, 0xd2, 0x00, 0x19] \<and>
   (\<exists>info. pkt_parse LittleEndian test_packet 40 = Inr (1, info) \<and> is_ipv4 info = 1 \<and>
      is_tcp info = 1 \<and> ip_header_len info = 20 \<and> tcp_header_len info = 20 \<and>
      tcp_src info = htons LittleEndian 1234 \<and> tcp_dst info = htons LittleEndian 25 \<and>
      host_store LittleEndian 2 (tcp_src info) = [0x04, 0xd2] \<and>
      host_store LittleEndian 2 (tcp_dst info) = [0x00, 0x19])"
  using pkt_parse_tcp_example [of test_packet LittleEndian]
  by (simp add: test_packet_def ip_v_def ip_hl_def th_off_def IPPROTO_TCP_def)

subsection \<open>The invariant of the result\<close>

text \<open>
  Claim C9. In every result of \<open>pkt_parse\<close>, \<open>is_tcp\<close> set implies \<open>is_ipv4\<close> set.
\<close>

theorem pkt_parse_tcp_implies_ipv4:
  assumes "pkt_parse e buf len = Inr (r, info)" and "is_tcp info \<noteq> 0"
  shows "is_ipv4 info = 1"
  using assms unfolding pkt_parse_def Let_def
  by (auto simp: zero_info_def split: if_splits elim!: rd_bind_InrE)

theorem pkt_parse_tcp_implies_ipv4_witness:
  "\<exists>r info. pkt_parse LittleEndian test_packet 40 = Inr (r, info) \<and> is_tcp info \<noteq> 0 \<and> is_ipv4 info = 1"
proof -
  have b: "20 \<le> (40::nat)" "40 \<le> length test_packet"
    by (simp_all add: test_packet_def)
  from pkt_parse_in_bounds [OF b, of LittleEndian] obtain info where p: "pkt_parse LittleEndian test_packet 40 = Inr (1, info)" and t: "is_tcp info \<noteq> 0"
    by (simp add: test_packet_def ip_v_def ip_hl_def IPPROTO_TCP_def)
  from pkt_parse_tcp_implies_ipv4 [OF p t] p t show ?thesis by blast
qed



subsection \<open>Header-length fields below 5\<close>

text \<open>
  Claim C10. \<open>pkt_parse\<close> does not enforce the lower bound 5 of the two header-length
  fields. For a buffer of at least 20 bytes with version 4 and an IP header-length field
  below 5, it returns 1 and reports \<open>ip_header_len\<close> as four times the field, below 20.
  Whenever it reports a TCP packet, \<open>tcp_header_len\<close> is four times the data-offset
  field found 12 bytes after the reported IP header length, whatever that field holds. For
  \<open>tiny_packet\<close> both reported header lengths are 0.
\<close>

theorem pkt_parse_no_lower_bound:
  "(20 \<le> len \<and> len \<le> length buf \<and> ip_v (buf ! 0) = 4 \<and> uint (ip_hl (buf ! 0)) < 5 \<longrightarrow>
      (\<exists>info. pkt_parse e buf len = Inr (1, info) \<and> is_ipv4 info = 1 \<and>
         ip_header_len info = uint (ip_hl (buf ! 0)) * 4 \<and> ip_header_len info < 20)) \<and>
   (len \<le> length buf \<and> pkt_parse e buf len = Inr (r, info') \<and> is_tcp info' \<noteq> 0 \<longrightarrow>
      tcp_header_len info' = uint (th_off (buf ! (nat (ip_header_len info') + 12))) * 4) \<and>
   (\<exists>info. pkt_parse e tiny_packet 20 = Inr (1, info) \<and> is_ipv4 info = 1 \<and> is_tcp info = 1 \<and>
      ip_header_len info = 0 \<and> tcp_header_len info = 0)"
proof (intro conjI impI)
  assume a: "20 \<le> len \<and> len \<le> length buf \<and> ip_v (buf ! 0) = 4 \<and> uint (ip_hl (buf ! 0)) < 5"
  then have b: "20 \<le> len" "len \<le> length buf" by simp_all
  from pkt_parse_in_bounds [OF b, of e] a
  show "\<exists>info. pkt_parse e buf len = Inr (1, info) \<and> is_ipv4 info = 1 \<and>
         ip_header_len info = uint (ip_hl (buf ! 0)) * 4 \<and> ip_header_len info < 20"
    by auto
next
  assume a: "len \<le> length buf \<and> pkt_parse e buf len = Inr (r, info') \<and> is_tcp info' \<noteq> 0"
  show "tcp_header_len info' = uint (th_off (buf ! (nat (ip_header_len info') + 12))) * 4"
  proof (cases "len < 20")
    case True
    with a pkt_parse_short [of len e buf] show ?thesis by (auto simp: zero_info_def)
  next
    case False
    with a have b: "20 \<le> len" "len \<le> length buf" by simp_all
    from pkt_parse_in_bounds [OF b, of e] a show ?thesis
      by (auto simp: zero_info_def split: if_splits)
  qed
next
  have b: "20 \<le> (20::nat)" "20 \<le> length tiny_packet" by (simp_all add: tiny_packet_def)
  from pkt_parse_in_bounds [OF b, of e]
  show "\<exists>info. pkt_parse e tiny_packet 20 = Inr (1, info) \<and> is_ipv4 info = 1 \<and> is_tcp info = 1 \<and>
      ip_header_len info = 0 \<and> tcp_header_len info = 0"
    by (simp add: tiny_packet_def ip_v_def ip_hl_def th_off_def IPPROTO_TCP_def)
qed

theorem pkt_parse_no_lower_bound_witness:
  "20 \<le> length tiny_packet \<and> ip_v (tiny_packet ! 0) = 4 \<and> uint (ip_hl (tiny_packet ! 0)) < 5 \<and>
   (\<exists>info. pkt_parse BigEndian tiny_packet 20 = Inr (1, info) \<and> is_ipv4 info = 1 \<and>
      ip_header_len info = 0 \<and> ip_header_len info < 20 \<and> is_tcp info \<noteq> 0 \<and>
      tcp_header_len info = uint (th_off (tiny_packet ! (nat (ip_header_len info) + 12))) * 4 \<and>
      tcp_header_len info = 0)"
proof -
  have h: "20 \<le> length tiny_packet" "ip_v (tiny_packet ! 0) = 4" "uint (ip_hl (tiny_packet ! 0)) < 5"
    "uint (ip_hl (tiny_packet ! 0)) = 0"
    by (simp_all add: tiny_packet_def ip_v_def ip_hl_def)
  from pkt_parse_no_lower_bound [of 20 tiny_packet BigEndian]
  obtain info where i: "pkt_parse BigEndian tiny_packet 20 = Inr (1, info)" "is_ipv4 info = 1"
    "is_tcp info = 1" "ip_header_len info = 0" "tcp_header_len info = 0"
    by blast
  from pkt_parse_no_lower_bound [of 20 tiny_packet BigEndian 1 info] h i
  have "tcp_header_len info = uint (th_off (tiny_packet ! (nat (ip_header_len info) + 12))) * 4"
    by simp
  with h i show ?thesis by auto
qed

section \<open>Properties of the framing\<close>

subsection \<open>Byte order\<close>

lemma be_bytes_4:
  "be_bytes 4 w = [ucast (drop_bit 24 w), ucast (drop_bit 16 w), ucast (drop_bit 8 w), ucast w]"
  by (simp add: be_bytes_def eval_nat_numeral)

lemma length_be_bytes [simp]: "length (be_bytes n w) = n"
  by (simp add: be_bytes_def)

lemma be_word_4:
  "be_word [a, b, c, d] =
     push_bit 24 (ucast a) OR push_bit 16 (ucast b) OR push_bit 8 (ucast c) OR (ucast d :: u32)"
  by (simp add: be_word_def or.assoc)

lemma be_word_be_bytes: "be_word (be_bytes 4 (v::u32)) = v"
  unfolding be_bytes_4 be_word_4
proof (rule bit_word_eqI)
  fix n :: nat
  assume "n < LENGTH(32)"
  then consider "n < 8" | "8 \<le> n" "n < 16" | "16 \<le> n" "n < 24" | "24 \<le> n" "n < 32"
    by fastforce
  then show "bit (push_bit 24 (ucast (ucast (drop_bit 24 v) :: u8)) OR
      push_bit 16 (ucast (ucast (drop_bit 16 v) :: u8)) OR
      push_bit 8 (ucast (ucast (drop_bit 8 v) :: u8)) OR (ucast (ucast v :: u8) :: u32)) n = bit v n"
    by cases (auto simp: bit_simps)
qed

lemma be_bytes_be_word:
  assumes "length bs = 4"
  shows "be_bytes 4 (be_word bs :: u32) = bs"
proof -
  from assms obtain a b c d where bs: "bs = [a, b, c, d]"
    by (auto simp: length_Suc_conv eval_nat_numeral)
  have "ucast (drop_bit 24 (be_word [a, b, c, d] :: u32)) = a"
    unfolding be_word_4 by (rule bit_word_eqI) (auto simp: bit_simps dest: bit_imp_le_length)
  moreover have "ucast (drop_bit 16 (be_word [a, b, c, d] :: u32)) = b"
    unfolding be_word_4 by (rule bit_word_eqI) (auto simp: bit_simps dest: bit_imp_le_length)
  moreover have "ucast (drop_bit 8 (be_word [a, b, c, d] :: u32)) = c"
    unfolding be_word_4 by (rule bit_word_eqI) (auto simp: bit_simps dest: bit_imp_le_length)
  moreover have "ucast (be_word [a, b, c, d] :: u32) = d"
    unfolding be_word_4 by (rule bit_word_eqI) (auto simp: bit_simps dest: bit_imp_le_length)
  ultimately show ?thesis unfolding bs be_bytes_4 by simp
qed

lemma ntohl_host_load:
  assumes "length bs = 4"
  shows "ntohl e (host_load e bs) = be_word bs"
proof (cases e)
  case BigEndian
  then show ?thesis by (simp add: ntohl_def host_load_def)
next
  case LittleEndian
  have "be_bytes 4 (be_word (rev bs) :: u32) = rev bs"
    by (rule be_bytes_be_word) (simp add: assms)
  with LittleEndian show ?thesis by (simp add: ntohl_def host_load_def bswap32_def)
qed

lemma host_store_htonl: "host_store e 4 (htonl e v) = be_bytes 4 v"
proof (cases e)
  case BigEndian
  then show ?thesis by (simp add: htonl_def host_store_def)
next
  case LittleEndian
  have "be_bytes 4 (be_word (rev (be_bytes 4 v)) :: u32) = rev (be_bytes 4 v)"
    by (rule be_bytes_be_word) simp
  with LittleEndian show ?thesis by (simp add: htonl_def host_store_def bswap32_def)
qed

lemma unat_frame_length:
  assumes "length p \<le> 65535"
  shows "unat (word_of_nat (length p) :: u32) = length p"
  using assms by (simp add: unat_of_nat)

lemma frame_length_valid:
  assumes "1 \<le> length p" and "length p \<le> 65535"
  shows "\<not> (65535 < (word_of_nat (length p) :: u32) \<or> (word_of_nat (length p) :: u32) = 0)"
proof -
  have u: "unat (word_of_nat (length p) :: u32) = length p"
    using assms(2) by (rule unat_frame_length)
  have "unat (65535 :: u32) = 65535" by simp
  with u assms show ?thesis
    by (metis One_nat_def not_less unat_0 word_less_nat_alt not_one_le_zero)
qed

subsection \<open>One frame in each direction\<close>

lemma length_host_store [simp]: "length (host_store e n w) = n"
  by (cases e) (simp_all add: host_store_def)


lemma recv_length_slot:
  "recv n (w\<lparr>length_slot := l\<rparr>) = (fst (recv n w), (snd (recv n w))\<lparr>length_slot := l\<rparr>)"
  by (simp add: recv_def Let_def split: list.splits rx_event.splits)

lemma recv_log_recv: "recv n w = (r, w') \<Longrightarrow> recv_log w' = recv_log w @ [n]"
  by (auto simp: recv_def Let_def split: list.splits rx_event.splits if_splits)


lemma recv_count:
  "recv n w = ((k, bs), w') \<Longrightarrow> 0 < k \<Longrightarrow> k = int (length bs) \<and> length bs \<le> n"
  by (auto simp: recv_def Let_def split: list.splits rx_event.splits if_splits)



text \<open>The block after a first \<open>recv\<close> that returned 4 bytes.\<close>

lemma client_to_tun_full_prefix:
  assumes "recv 4 w = ((4, pre), w1)"
  shows "client_to_tun e w =
    (if 65535 < (be_word pre :: u32) \<or> (be_word pre :: u32) = 0
     then (Continue, w1\<lparr>length_slot := be_word pre\<rparr>)
     else
       case recv (unat (be_word pre :: u32)) w1 of ((k2, p), w2) \<Rightarrow>
         if k2 \<le> 0 then (Continue, w2\<lparr>length_slot := be_word pre\<rparr>)
         else (Fall, snd (tun_write p (w2\<lparr>length_slot := be_word pre\<rparr>))))"
proof -
  from recv_count [OF assms] have "length pre = 4" by simp
  then have len:
    "ntohl e (host_load e (pre @ drop (length pre) (host_store e 4 (length_slot w1)))) = be_word pre"
    by (simp add: ntohl_host_load)
  show ?thesis
    unfolding client_to_tun_def
    by (simp add: assms len Let_def recv_length_slot split: prod.splits)
qed


lemma send_full: "send bs w = (int (length bs), w') \<Longrightarrow> sent w' = sent w @ bs"
  by (auto simp: send_def min_def split: list.splits tx_event.splits if_splits)

lemma tun_to_client_full_send:
  assumes "1 \<le> length p" and "length p \<le> 65535"
    and "tun_rd w = TunPacket p # tevs"
    and "send (be_bytes 4 (word_of_nat (length p) :: u32)) (w\<lparr>tun_rd := tevs\<rparr>) = (4, w2)"
    and "send p w2 = (int (length p), w3)"
  shows "tun_to_client e w = (Fall, w3) \<and> sent w3 = sent w @ frame p"
proof -
  from assms(2) have t: "take 65535 p = p" by simp
  have r: "tun_read 65535 w = ((int (length p), p), w\<lparr>tun_rd := tevs\<rparr>)"
    by (simp add: tun_read_def assms(3) t)
  from assms(1) have pos: "0 < int (length p)" by (cases p) simp_all
  have s1: "sent w2 = sent (w\<lparr>tun_rd := tevs\<rparr>) @ be_bytes 4 (word_of_nat (length p) :: u32)"
    by (rule send_full) (simp add: assms(4))
  have s2: "sent w3 = sent w2 @ p"
    using assms(5) by (rule send_full)
  have "tun_to_client e w = (Fall, w3)"
    unfolding tun_to_client_def using pos
    by (simp add: r Let_def host_store_htonl assms(4,5))
  with s1 s2 show ?thesis by (simp add: frame_def)
qed

subsection \<open>Round trip\<close>

text \<open>
  Claim C3. The round-trip law does not hold for every payload without a condition on the
  transfer. The loop takes a \<open>send\<close> of the payload that accepted fewer bytes than were
  offered for a success: with a socket that accepts 1 of the 3 bytes of the payload
  \<open>aa bb cc\<close>, the bytes on the wire are \<open>00 00 00 03 aa\<close>, and a receiver that decodes
  them writes the packet \<open>aa\<close>. And when the socket accepts everything but the receiver's
  socket holds only the first five bytes of the frame at the first \<open>recv\<close>, the receiver
  writes the packet \<open>aa\<close> as well.
\<close>

theorem round_trip_short_transfer_counterexample:
  "tun_rd short_send_world = [TunPacket [0xAA, 0xBB, 0xCC]] \<and>
   fst (tun_to_client LittleEndian short_send_world) = Fall \<and>
   sent (snd (tun_to_client LittleEndian short_send_world)) = [0, 0, 0, 3, 0xAA] \<and>
   fst (client_to_tun LittleEndian short_wire_world) = Fall \<and>
   tun_written (snd (client_to_tun LittleEndian short_wire_world)) = [[0xAA]] \<and>
   tun_rd full_send_world = [TunPacket [0xAA, 0xBB, 0xCC]] \<and>
   fst (tun_to_client LittleEndian full_send_world) = Fall \<and>
   sent (snd (tun_to_client LittleEndian full_send_world)) = [0, 0, 0, 3, 0xAA, 0xBB, 0xCC] \<and>
   rx split_wire_world = [RxData [0, 0, 0, 3, 0xAA], RxData [0xBB, 0xCC]] \<and>
   fst (client_to_tun LittleEndian split_wire_world) = Fall \<and>
   tun_written (snd (client_to_tun LittleEndian split_wire_world)) = [[0xAA]]"
  by (simp add: short_send_world_def short_wire_world_def full_send_world_def split_wire_world_def
      quiet_world_def tun_to_client_def client_to_tun_def tun_read_def send_def recv_def
      tun_write_def htonl_def ntohl_def host_load_def host_store_def bswap32_def be_word_def
      be_bytes_4 Let_def)

text \<open>
  Claim C3, as amended. For every payload of 1 to 65535 bytes that the TUN device hands
  over: when the \<open>send\<close> of the prefix accepts its 4 bytes and the \<open>send\<close> of the payload
  accepts all of its bytes, the bytes put on the wire are \<open>frame p\<close>, the length as 4 bytes
  in network byte order and then the payload; and when the first \<open>recv\<close> of a receiver
  returns the first 4 of these bytes and its second \<open>recv\<close> returns the others, the
  receiver decodes the length \<open>length p\<close> and writes exactly \<open>p\<close> to its TUN device,
  whatever the byte orders \<open>e\<close> and \<open>e'\<close> of the two hosts.
\<close>

theorem frame_round_trip:
  assumes "1 \<le> length p" and "length p \<le> 65535"
    and "tun_rd ws = TunPacket p # tevs"
    and "send (be_bytes 4 (word_of_nat (length p) :: u32)) (ws\<lparr>tun_rd := tevs\<rparr>) = (4, ws2)"
    and "send p ws2 = (int (length p), ws3)"
    and "wire = drop (length (sent ws)) (sent ws3)"
    and "recv 4 wr = ((4, take 4 wire), wr1)"
    and "recv (length p) wr1 = ((int (length p), drop 4 wire), wr2)"
    and "tun_wr wr2 = []"
  shows "tun_to_client e ws = (Fall, ws3) \<and> wire = frame p \<and>
         recv_log wr2 = recv_log wr @ [4, length p] \<and>
         client_to_tun e' wr =
           (Fall, wr2\<lparr>length_slot := word_of_nat (length p),
                     tun_written := tun_written wr2 @ [p]\<rparr>)"
proof -
  let ?L = "word_of_nat (length p) :: u32"
  from tun_to_client_full_send [OF assms(1-5), of e]
  have enc: "tun_to_client e ws = (Fall, ws3)" and s: "sent ws3 = sent ws @ frame p"
    by simp_all
  from s assms(6) have wire: "wire = frame p" by simp
  then have t: "take 4 wire = be_bytes 4 ?L" and d: "drop 4 wire = p"
    by (simp_all add: frame_def)
  have r1: "recv 4 wr = ((4, be_bytes 4 ?L), wr1)"
    using assms(7) t by simp
  have r2: "recv (length p) wr1 = ((int (length p), p), wr2)"
    using assms(8) d by simp
  have valid: "\<not> (65535 < ?L \<or> ?L = 0)"
    using assms(1,2) by (rule frame_length_valid)
  have u: "unat ?L = length p"
    using assms(2) by (rule unat_frame_length)
  from assms(1) have pos: "\<not> int (length p) \<le> 0" by (cases p) simp_all
  have l: "recv_log wr2 = recv_log wr @ [4, length p]"
    using recv_log_recv [OF r1] recv_log_recv [OF r2] by simp
  from client_to_tun_full_prefix [OF r1, of e'] valid pos
  have "client_to_tun e' wr =
      (Fall, wr2\<lparr>length_slot := ?L, tun_written := tun_written wr2 @ [p]\<rparr>)"
    by (simp add: be_word_be_bytes u r2 tun_write_def assms(9))
  with enc wire l show ?thesis by simp
qed

theorem frame_round_trip_witness:
  "tun_to_client LittleEndian sender_world =
     (Fall, sender_world\<lparr>sent := [0, 0, 0, 3, 1, 2, 3], tun_rd := []\<rparr>) \<and>
   rx receiver_world = [RxData [0, 0, 0, 3, 1, 2, 3]] \<and>
   client_to_tun BigEndian receiver_world =
     (Fall, receiver_world\<lparr>recv_log := [4, 3], rx := [], length_slot := 3,
                           tun_written := [[1, 2, 3]]\<rparr>)"
proof -
  let ?ws2 = "sender_world\<lparr>sent := [0, 0, 0, 3], tun_rd := []\<rparr>"
  let ?ws3 = "sender_world\<lparr>sent := [0, 0, 0, 3, 1, 2, 3], tun_rd := []\<rparr>"
  let ?wr1 = "receiver_world\<lparr>recv_log := [4], rx := [RxData [1, 2, 3]]\<rparr>"
  let ?wr2 = "receiver_world\<lparr>recv_log := [4, 3], rx := []\<rparr>"
  have a: "1 \<le> length [1, 2, 3 :: u8]" "length [1, 2, 3 :: u8] \<le> 65535"
    by simp_all
  have b: "tun_rd sender_world = TunPacket [1, 2, 3] # []"
    by (simp add: sender_world_def quiet_world_def)
  have c: "send (be_bytes 4 (word_of_nat (length [1, 2, 3 :: u8]) :: u32))
        (sender_world\<lparr>tun_rd := []\<rparr>) = (4, ?ws2)"
    "send [1, 2, 3] ?ws2 = (int (length [1, 2, 3 :: u8]), ?ws3)"
    by (simp_all add: send_def sender_world_def quiet_world_def be_bytes_4)
  have w: "[0, 0, 0, 3, 1, 2, 3] = drop (length (sent sender_world)) (sent ?ws3)"
    by (simp add: sender_world_def quiet_world_def)
  have enc: "tun_to_client LittleEndian sender_world = (Fall, ?ws3)"
    by (simp add: tun_to_client_def tun_read_def send_def sender_world_def quiet_world_def
        htonl_def host_store_def bswap32_def be_word_def be_bytes_4 Let_def)
  then have rxr: "rx receiver_world = [RxData [0, 0, 0, 3, 1, 2, 3]]"
    by (simp add: receiver_world_def quiet_world_def)
  have l: "recv_log receiver_world = []" "tun_written receiver_world = []"
    "tun_wr receiver_world = []"
    by (simp_all add: receiver_world_def quiet_world_def)
  have d: "recv 4 receiver_world = ((4, take 4 [0, 0, 0, 3, 1, 2, 3]), ?wr1)"
    "recv (length [1, 2, 3 :: u8]) ?wr1 =
       ((int (length [1, 2, 3 :: u8]), drop 4 [0, 0, 0, 3, 1, 2, 3]), ?wr2)"
    "tun_wr ?wr2 = []"
    by (simp_all add: recv_def rxr l)
  from frame_round_trip [OF a b c w d, of LittleEndian BigEndian] rxr l
  show ?thesis by simp
qed

subsection \<open>A length out of bounds\<close>



subsection \<open>Reads that return less than was asked for\<close>




section \<open>Release of the resources of a session\<close>

lemma resources_length_slot [simp]: "resources (w\<lparr>length_slot := l\<rparr>) = resources w"
  by (simp add: resources_def)

lemma resources_recv: "recv n w = (r, w') \<Longrightarrow> resources w' = resources w"
  by (auto simp: recv_def resources_def Let_def split: list.splits rx_event.splits if_splits)

lemma resources_send: "send bs w = (r, w') \<Longrightarrow> resources w' = resources w"
  by (auto simp: send_def resources_def split: list.splits tx_event.splits)

lemma resources_tun_read: "tun_read n w = (r, w') \<Longrightarrow> resources w' = resources w"
  by (auto simp: tun_read_def resources_def split: list.splits tun_rd_event.splits)

lemma resources_tun_write: "tun_write bs w = (r, w') \<Longrightarrow> resources w' = resources w"
  by (auto simp: tun_write_def resources_def split: list.splits tun_wr_event.splits)

lemma resources_system: "system w = (r, w') \<Longrightarrow> resources w' = resources w"
  by (auto simp: system_def resources_def split: list.splits)

lemma resources_client_to_tun:
  "client_to_tun e w = (f, w') \<Longrightarrow> resources w' = resources w"
  unfolding client_to_tun_def Let_def
  by (auto split: prod.splits if_splits dest!: resources_recv resources_tun_write)

lemma resources_tun_to_client:
  "tun_to_client e w = (f, w') \<Longrightarrow> resources w' = resources w"
  unfolding tun_to_client_def Let_def
  by (auto split: prod.splits if_splits dest!: resources_tun_read resources_send)

lemma resources_forward_ready:
  assumes "forward_ready e c t w = (f, w')"
  shows "resources w' = resources w"
proof -
  obtain f1 w1 where c1: "(if c then client_to_tun e w else (Fall, w)) = (f1, w1)"
    by (metis surj_pair)
  then have a: "resources w1 = resources w"
    by (auto split: if_splits dest: resources_client_to_tun)
  from assms c1 have "w' = w1 \<or> tun_to_client e w1 = (f, w')"
    by (auto simp: forward_ready_def split: if_splits)
  with a show ?thesis by (auto dest: resources_tun_to_client)
qed

lemma resources_loop_body:
  assumes "loop_body e sel w = (f, w')"
  shows "resources w' = resources w"
proof (cases sel)
  case (SelFail err)
  have "resources (w\<lparr>errno := err\<rparr>) = resources w" by (simp add: resources_def)
  with assms SelFail show ?thesis
    by (auto simp: loop_body_def Let_def split: if_splits dest: resources_forward_ready)
next
  case SelTimeout
  with assms show ?thesis by (simp add: loop_body_def)
next
  case (SelReady c t)
  with assms show ?thesis by (auto simp: loop_body_def dest: resources_forward_ready)
qed

lemma resources_forwarding_loop:
  "forwarding_loop e evs w = Some w' \<Longrightarrow> resources w' = resources w"
proof (induction e evs w rule: forwarding_loop.induct)
  case (1 e w)
  then show ?case by simp
next
  case (2 e evs w)
  then show ?case by simp
next
  case (3 e sel evs w)
  obtain f w1 where b: "loop_body e sel w = (f, w1)" by (metis surj_pair)
  then have r: "resources w1 = resources w" by (rule resources_loop_body)
  show ?case
  proof (cases f)
    case Break
    with "3.prems" b r show ?thesis by simp
  next
    case Continue
    with "3.prems" b have "forwarding_loop e evs w1 = Some w'" by simp
    with "3.IH"(1) [OF b [symmetric]] Continue r show ?thesis by simp
  next
    case Fall
    with "3.prems" b have "forwarding_loop e evs w1 = Some w'" by simp
    with "3.IH"(2) [OF b [symmetric]] Fall r show ?thesis by simp
  qed
qed

lemma forwarding_loop_stops:
  "Stopped \<in> set evs \<Longrightarrow> forwarding_loop e evs w \<noteq> None"
proof (induction e evs w rule: forwarding_loop.induct)
  case (1 e w)
  then show ?case by simp
next
  case (2 e evs w)
  then show ?case by simp
next
  case (3 e sel evs w)
  obtain f w1 where b: "loop_body e sel w = (f, w1)" by (metis surj_pair)
  from "3.prems" have s: "Stopped \<in> set evs" by simp
  show ?case
  proof (cases f)
    case Break
    with b show ?thesis by simp
  next
    case Continue
    with "3.IH"(1) [OF b [symmetric] _ s] b show ?thesis by simp
  next
    case Fall
    with "3.IH"(2) [OF b [symmetric] _ s] b show ?thesis by simp
  qed
qed

lemma resources_configure_tun_device:
  "configure_tun_device w = (st, w') \<Longrightarrow> resources w' = resources w"
  unfolding configure_tun_device_def
  by (auto split: prod.splits if_splits dest!: resources_system)

lemma release_all:
  assumes "resources w = (Opened, Opened, Allocated, False)"
  shows "resources (free_client (close_client (close_tun w))) = (Closed, Closed, Freed, False)"
  using assms by (simp add: resources_def free_client_def close_client_def close_tun_def)

lemma release_client:
  assumes "resources w = (t, Opened, Allocated, False)"
  shows "resources (free_client (close_client w)) = (t, Closed, Freed, False)"
  using assms by (simp add: resources_def free_client_def close_client_def)

lemma resources_create_tun_device:
  assumes "session_start w" and "create_tun_device w = (created, w1)"
  shows "resources w1 =
    (if created then Opened else if open_ok w then Closed else Unopened, Opened, Allocated, False)"
    and "created \<longrightarrow> open_ok w"
  using assms
  by (auto simp: session_start_def create_tun_device_def resources_def close_tun_def Let_def
      split: if_splits)

text \<open>
  Claim C8. Whenever \<open>handle_client\<close> returns, by whichever path, the client socket is
  closed, the client structure is freed, the TUN descriptor is closed if it was ever opened
  and was never opened otherwise, and nothing was closed or freed twice. It returns whenever
  the loop finds \<open>running\<close> cleared.
\<close>

theorem handle_client_releases:
  assumes "session_start w"
  shows "(Stopped \<in> set evs \<longrightarrow> handle_client e evs w \<noteq> None) \<and>
    (\<forall>w'. handle_client e evs w = Some w' \<longrightarrow>
       client_fd w' = Closed \<and> client w' = Freed \<and>
       tun_fd w' = (if open_ok w then Closed else Unopened) \<and> \<not> misuse w')"
proof -
  obtain created w1 where c: "create_tun_device w = (created, w1)" by (metis surj_pair)
  obtain st w2 where g: "configure_tun_device w1 = (st, w2)" by (metis surj_pair)
  note r1 = resources_create_tun_device [OF assms c]
  have r2: "resources w2 = resources w1"
    using g by (rule resources_configure_tun_device)
  show ?thesis
  proof (cases "created \<and> \<not> st < 0")
    case False
    then have h: "handle_client e evs w =
        (if \<not> created then Some (free_client (close_client w1))
         else Some (free_client (close_client (close_tun w2))))"
      by (auto simp: handle_client_def c g)
    show ?thesis
    proof (cases created)
      case True
      with r1 r2 have "resources w2 = (Opened, Opened, Allocated, False)" and "open_ok w"
        by simp_all
      with release_all [of w2] h True show ?thesis
        by (simp add: resources_def)
    next
      case False
      with r1 have "resources w1 = (if open_ok w then Closed else Unopened, Opened, Allocated, False)"
        by simp
      from release_client [OF this] h False show ?thesis
        by (simp add: resources_def)
    qed
  next
    case True
    then have h: "handle_client e evs w =
        (case forwarding_loop e evs w2 of None \<Rightarrow> None
         | Some w3 \<Rightarrow> Some (free_client (close_client (close_tun w3))))"
      by (simp add: handle_client_def c g)
    from True r1 r2 have s: "resources w2 = (Opened, Opened, Allocated, False)" and o: "open_ok w"
      by simp_all
    have "handle_client e evs w \<noteq> None" if "Stopped \<in> set evs"
      using forwarding_loop_stops [OF that, of e w2] h by (auto split: option.splits)
    moreover have "client_fd w' = Closed \<and> client w' = Freed \<and>
       tun_fd w' = (if open_ok w then Closed else Unopened) \<and> \<not> misuse w'"
      if "handle_client e evs w = Some w'" for w'
    proof -
      from that h obtain w3 where l: "forwarding_loop e evs w2 = Some w3"
        and w': "w' = free_client (close_client (close_tun w3))"
        by (auto split: option.splits)
      from resources_forwarding_loop [OF l] s
      have "resources w3 = (Opened, Opened, Allocated, False)" by simp
      from release_all [OF this] w' o show ?thesis by (simp add: resources_def)
    qed
    ultimately show ?thesis by blast
  qed
qed

theorem handle_client_releases_witness:
  "session_start quiet_world \<and>
   (\<exists>w'. handle_client LittleEndian [Running SelTimeout, Stopped] quiet_world = Some w' \<and>
      client_fd w' = Closed \<and> client w' = Freed \<and> tun_fd w' = Closed \<and> \<not> misuse w') \<and>
   (\<exists>w'. handle_client LittleEndian [] (quiet_world\<lparr>open_ok := False\<rparr>) = Some w' \<and>
      client_fd w' = Closed \<and> client w' = Freed \<and> tun_fd w' = Unopened \<and> \<not> misuse w') \<and>
   (\<exists>w'. handle_client LittleEndian [] (quiet_world\<lparr>ioctl_ok := False\<rparr>) = Some w' \<and>
      client_fd w' = Closed \<and> client w' = Freed \<and> tun_fd w' = Closed \<and> \<not> misuse w') \<and>
   (\<exists>w'. handle_client LittleEndian [] (quiet_world\<lparr>system_status := [0, 1]\<rparr>) = Some w' \<and>
      client_fd w' = Closed \<and> client w' = Freed \<and> tun_fd w' = Closed \<and> \<not> misuse w') \<and>
   (\<exists>w'. handle_client LittleEndian [Running (SelReady True False)]
           (quiet_world\<lparr>rx := [RxEof]\<rparr>) = Some w' \<and>
      client_fd w' = Closed \<and> client w' = Freed \<and> tun_fd w' = Closed \<and> \<not> misuse w') \<and>
   (\<exists>w'. handle_client LittleEndian [Running (SelReady False True)]
           (quiet_world\<lparr>tun_rd := [TunRdFail EOTHER]\<rparr>) = Some w' \<and>
      client_fd w' = Closed \<and> client w' = Freed \<and> tun_fd w' = Closed \<and> \<not> misuse w')"
proof -
  have s: "session_start quiet_world"
    "session_start (quiet_world\<lparr>open_ok := False\<rparr>)"
    "session_start (quiet_world\<lparr>ioctl_ok := False\<rparr>)"
    "session_start (quiet_world\<lparr>system_status := [0, 1]\<rparr>)"
    "session_start (quiet_world\<lparr>rx := [RxEof]\<rparr>)"
    "session_start (quiet_world\<lparr>tun_rd := [TunRdFail EOTHER]\<rparr>)"
    by (simp_all add: session_start_def quiet_world_def)
  have o: "open_ok quiet_world" by (simp add: quiet_world_def)
  have r: "handle_client LittleEndian [] (quiet_world\<lparr>open_ok := False\<rparr>) \<noteq> None"
    "handle_client LittleEndian [] (quiet_world\<lparr>ioctl_ok := False\<rparr>) \<noteq> None"
    "handle_client LittleEndian [] (quiet_world\<lparr>system_status := [0, 1]\<rparr>) \<noteq> None"
    "handle_client LittleEndian [Running (SelReady True False)]
       (quiet_world\<lparr>rx := [RxEof]\<rparr>) \<noteq> None"
    "handle_client LittleEndian [Running (SelReady False True)]
       (quiet_world\<lparr>tun_rd := [TunRdFail EOTHER]\<rparr>) \<noteq> None"
    by (simp_all add: handle_client_def create_tun_device_def configure_tun_device_def system_def
        close_tun_def loop_body_def forward_ready_def client_to_tun_def tun_to_client_def
        recv_def tun_read_def quiet_world_def)
  from handle_client_releases [OF s(1), of "[Running SelTimeout, Stopped]" LittleEndian]
    handle_client_releases [OF s(2), of "[]" LittleEndian]
    handle_client_releases [OF s(3), of "[]" LittleEndian]
    handle_client_releases [OF s(4), of "[]" LittleEndian]
    handle_client_releases [OF s(5), of "[Running (SelReady True False)]" LittleEndian]
    handle_client_releases [OF s(6), of "[Running (SelReady False True)]" LittleEndian]
    s(1) o r
  show ?thesis by auto
qed

end
